theory Spec2Isabelle
  imports Main "HOL-Library.Sublist"
begin

section \<open>The miner node of src/miner.js\<close>

text \<open>
  The node keeps a transaction pool, a transaction index, a chain of blocks and a list of
  peers. The libraries it calls (\<^verbatim>\<open>transactionblockchain\<close>, \<^verbatim>\<open>blockblockchain\<close>) are
  not part of the repository: their functions are parameters of the model, collected in
  the record \<open>externals\<close>, and are taken to be pure (they return a value and throw
  nothing). Log output is an observability side channel and is left out. A field that a
  function of miner.js mutates in place is returned updated.
\<close>

subsection \<open>Data\<close>

text \<open>
  A block as miner.js uses it: \<^verbatim>\<open>data\<close> (read with \<^verbatim>\<open>push\<close>, \<^verbatim>\<open>pop\<close> and \<^verbatim>\<open>map\<close>) and
  \<^verbatim>\<open>nonce\<close> (incremented). Every other field the block library stores is \<open>header\<close>,
  which miner.js neither reads nor writes. The payload of a block is built by the block
  library, so it is an array of transactions or some other value; \<^verbatim>\<open>push\<close>, \<^verbatim>\<open>pop\<close>
  and \<^verbatim>\<open>map\<close> exist on arrays only. The nonce is an integer-valued JavaScript number.
\<close>

datatype 'tx payload = Array "'tx list" | NotArray string

record ('tx, 'h) block =
  data :: "'tx payload"
  nonce :: int
  header :: 'h

text \<open>A peer: \<^verbatim>\<open>{ address, port }\<close>.\<close>

record node =
  address :: string
  port :: int

text \<open>An output of a transaction, as createNewCoin writes it:
  \<^verbatim>\<open>{ owner_public_key, value }\<close>.\<close>

record tx_output =
  output_owner_public_key :: string
  output_value :: int

text \<open>The result of \<^verbatim>\<open>Block.getVerificationMetadata\<close>: \<^verbatim>\<open>{ valid, transaction_map }\<close>.\<close>

record 'v verification_metadata =
  valid :: bool
  metadata_transaction_map :: "string \<rightharpoonup> 'v"

text \<open>The fields the constructor \<^verbatim>\<open>Miner\<close> sets (lines 8-20), but for the logger and
  the TCP server.\<close>

record ('tx, 'h, 'v) miner =
  transaction_pool :: "'tx list"
  transaction_map :: "string \<rightharpoonup> 'v"
  blockchain :: "('tx, 'h) block list"
  node_list :: "node list"
  miner_port :: int
  miner_host :: string
  actively_mining :: bool
  miner_public_key :: string
  miner_private_key :: string
  owner_public_key :: string

text \<open>The functions of the two libraries that miner.js calls.\<close>

record ('tx, 'h, 'v, 'ty, 'i) externals =
  Transaction_create :: "string \<Rightarrow> string \<Rightarrow> 'i list \<Rightarrow> tx_output list \<Rightarrow> 'ty \<Rightarrow> 'tx"
  Transaction_TYPES_NEW_COIN :: 'ty
  Transaction_verify :: "'tx \<Rightarrow> (string \<rightharpoonup> 'v) \<Rightarrow> ('tx, 'h) block \<Rightarrow> bool"
  Transaction_addToMap :: "'tx \<Rightarrow> (string \<rightharpoonup> 'v) \<Rightarrow> (string \<rightharpoonup> 'v)"
  Block_create :: "string \<Rightarrow> ('tx, 'h) block"
  Block_createFrom :: "('tx, 'h) block option \<Rightarrow> ('tx, 'h) block"
  Block_addTransaction :: "('tx, 'h) block \<Rightarrow> 'tx \<Rightarrow> ('tx, 'h) block"
  Block_getVerificationMetadata :: "('tx, 'h) block list \<Rightarrow> 'v verification_metadata"
  Block_computeHash :: "('tx, 'h) block \<Rightarrow> string"

text \<open>A call returns, or throws with the state as it is at the throw.\<close>

datatype js_error = TypeError

datatype 's outcome = Returned 's | Thrown js_error 's

fun state_of :: "'s outcome \<Rightarrow> 's" where
  "state_of (Returned s) = s"
| "state_of (Thrown e s) = s"

subsection \<open>The constructor\<close>

definition Miner :: "int \<Rightarrow> string \<Rightarrow> string \<Rightarrow> string \<Rightarrow> string \<Rightarrow> ('tx, 'h, 'v) miner" where
  "Miner p h miner_public miner_private owner_public =
     \<lparr> transaction_pool = [], transaction_map = Map.empty, blockchain = [], node_list = [],
       miner_port = p, miner_host = h, actively_mining = False,
       miner_public_key = miner_public, miner_private_key = miner_private,
       owner_public_key = owner_public \<rparr>"

subsection \<open>Peers (lines 56-68)\<close>

text \<open>The inner \<^verbatim>\<open>forEach\<close>: the flag starts false and is set at every entry with the
  same address and port.\<close>

definition already_in_list :: "node \<Rightarrow> node list \<Rightarrow> bool" where
  "already_in_list n our_nodes =
     foldl (\<lambda>found our_node.
              if address n = address our_node \<and> port n = port our_node then True else found)
       False our_nodes"

definition addNode :: "('tx, 'h, 'v) miner \<Rightarrow> node \<Rightarrow> ('tx, 'h, 'v) miner" where
  "addNode s n =
     (if \<not> already_in_list n (node_list s) then s\<lparr>node_list := node_list s @ [n]\<rparr> else s)"

definition addNodes :: "('tx, 'h, 'v) miner \<Rightarrow> node list \<Rightarrow> ('tx, 'h, 'v) miner" where
  "addNodes s nodes = foldl addNode s nodes"

subsection \<open>Chain and pool (lines 97-140)\<close>

definition createGenesisBlock ::
  "('tx, 'h, 'v, 'ty, 'i) externals \<Rightarrow> ('tx, 'h, 'v) miner \<Rightarrow> ('tx, 'h, 'v) miner" where
  "createGenesisBlock ext s =
     s\<lparr>blockchain := [Block_create ext ''GENESIS''], transaction_map := Map.empty\<rparr>"

definition createGenesisIfNeeded ::
  "('tx, 'h, 'v, 'ty, 'i) externals \<Rightarrow> ('tx, 'h, 'v) miner \<Rightarrow> ('tx, 'h, 'v) miner" where
  "createGenesisIfNeeded ext s =
     (if length (blockchain s) = 0 then createGenesisBlock ext s else s)"

definition createNewCoin ::
  "('tx, 'h, 'v, 'ty, 'i) externals \<Rightarrow> ('tx, 'h, 'v) miner \<Rightarrow> 'tx" where
  "createNewCoin ext s =
     Transaction_create ext (miner_public_key s) (miner_private_key s) []
       [\<lparr>output_owner_public_key = miner_public_key s, output_value = 1\<rparr>]
       (Transaction_TYPES_NEW_COIN ext)"

text \<open>\<^verbatim>\<open>this.blockchain[this.blockchain.length - 1]\<close>: \<^verbatim>\<open>undefined\<close> (here \<open>None\<close>) on
  the empty chain.\<close>

definition latestBlock :: "('tx, 'h, 'v) miner \<Rightarrow> ('tx, 'h) block option" where
  "latestBlock s =
     (if blockchain s = [] then None else Some (blockchain s ! (length (blockchain s) - 1)))"

text \<open>What a mutation of the object \<^verbatim>\<open>this.latestBlock()\<close> does to the chain.\<close>

definition setLatestBlock :: "('tx, 'h, 'v) miner \<Rightarrow> ('tx, 'h) block \<Rightarrow> ('tx, 'h, 'v) miner" where
  "setLatestBlock s b = s\<lparr>blockchain := (blockchain s)[length (blockchain s) - 1 := b]\<rparr>"

definition addTransactionToPool :: "('tx, 'h, 'v) miner \<Rightarrow> 'tx \<Rightarrow> ('tx, 'h, 'v) miner" where
  "addTransactionToPool s t = s\<lparr>transaction_pool := transaction_pool s @ [t]\<rparr>"

definition pushNewBlock ::
  "('tx, 'h, 'v, 'ty, 'i) externals \<Rightarrow> ('tx, 'h, 'v) miner \<Rightarrow> ('tx, 'h, 'v) miner" where
  "pushNewBlock ext s =
     (let s1 = s\<lparr>blockchain := blockchain s @ [Block_createFrom ext (latestBlock s)]\<rparr>
      in addTransactionToPool s1 (createNewCoin ext s1))"

subsection \<open>Receiving a chain (lines 143-168)\<close>

text \<open>Line 153 reads \<^verbatim>\<open>this.latestBlock().data.map\<close>: a TypeError when the chain is empty
  (\<^verbatim>\<open>data\<close> of \<^verbatim>\<open>undefined\<close>) or the payload is no array, thrown before anything is
  written.\<close>

definition receiveNewBlockchain ::
  "('tx, 'h, 'v, 'ty, 'i) externals \<Rightarrow> ('tx, 'h, 'v) miner \<Rightarrow> ('tx, 'h) block list
     \<Rightarrow> ('tx, 'h, 'v) miner outcome" where
  "receiveNewBlockchain ext s candidate =
     (if length candidate > length (blockchain s) then
        (let verificationMetadata = Block_getVerificationMetadata ext candidate in
         if valid verificationMetadata then
           (case latestBlock s of
              None \<Rightarrow> Thrown TypeError s
            | Some tip \<Rightarrow>
                (case data tip of
                   NotArray v \<Rightarrow> Thrown TypeError s
                 | Array txs \<Rightarrow>
                     (let s1 = foldl addTransactionToPool s txs;
                          s2 = s1\<lparr>blockchain := candidate\<rparr>;
                          s3 = s2\<lparr>transaction_map :=
                                    metadata_transaction_map verificationMetadata\<rparr>
                      in Returned (pushNewBlock ext s3))))
         else Returned s)
      else Returned s)"

subsection \<open>Flushing the pool (lines 71-94)\<close>







subsection \<open>Hashing and broadcast (lines 182-213)\<close>

text \<open>
  A solve starts one export per peer: \<^verbatim>\<open>net.createConnection\<close> (the connection is being
  opened), then its callback calls \<^verbatim>\<open>Message.exportBlocks\<close> (the export is running),
  then the callback of that ends the connection and counts the export as completed.
  \<open>completed_exports\<close> is the local counter of line 193, \<open>resolved\<close> says that
  lines 203-204 have run (pushNewBlock, then the promise resolved).
\<close>

datatype export_phase = Connecting | Exporting | Done

record ('tx, 'h, 'v) broadcast =
  miner_state :: "('tx, 'h, 'v) miner"
  exports :: "(node \<times> export_phase) list"
  completed_exports :: nat
  resolved :: bool

text \<open>
  What the promise of computeHash does: \<^verbatim>\<open>Util.delay(100)\<close> when the node is not mining;
  rejected by the TypeError of \<^verbatim>\<open>undefined.nonce\<close> on the empty chain; resolved at once
  when the hash misses the target; pending, with the exports started, when it meets it.
\<close>

datatype ('tx, 'h, 'v) hash_outcome =
    Delayed nat "('tx, 'h, 'v) miner"
  | Rejected js_error "('tx, 'h, 'v) miner"
  | Resolved "('tx, 'h, 'v) miner"
  | Broadcasting "('tx, 'h, 'v) broadcast"

text \<open>
  \<^verbatim>\<open>nonce++\<close> on a JavaScript number: the sum with 1 is rounded to the nearest double,
  a tie to the one with the even significand. An integer of magnitude at most \<open>2^53\<close> is
  a double; a larger one lies between two neighbouring multiples of its unit in the last
  place, the power of two that leaves 53 significant bits. So the increment is exact from
  \<open>- 2^53\<close> to \<open>2^53 - 1\<close>, and at \<open>2^53\<close> the nonce stays as it is.
\<close>

function bit_length :: "int \<Rightarrow> nat" where
  "bit_length m = (if m \<le> 0 then 0 else Suc (bit_length (m div 2)))"
  by pat_completeness auto
termination
  by (relation "measure nat") auto

declare bit_length.simps [simp del]

definition round_to_double :: "int \<Rightarrow> int" where
  "round_to_double m =
     (if \<bar>m\<bar> \<le> 2 ^ 53 then m
      else
        (let ulp = 2 ^ (bit_length \<bar>m\<bar> - 53);
             q = m div ulp;
             r = m mod ulp
         in if 2 * r < ulp then q * ulp
            else if ulp < 2 * r then (q + 1) * ulp
            else if even q then q * ulp
            else (q + 1) * ulp))"

definition js_increment :: "int \<Rightarrow> int" where
  "js_increment n = round_to_double (n + 1)"

definition startsWith :: "string \<Rightarrow> string \<Rightarrow> bool" where
  "startsWith str searchString = (take (length searchString) str = searchString)"

definition computeHash ::
  "('tx, 'h, 'v, 'ty, 'i) externals \<Rightarrow> ('tx, 'h, 'v) miner \<Rightarrow> ('tx, 'h, 'v) hash_outcome" where
  "computeHash ext s =
     (if \<not> actively_mining s then Delayed 100 s
      else
        (case latestBlock s of
           None \<Rightarrow> Rejected TypeError s
         | Some tip \<Rightarrow>
             (let s1 = setLatestBlock s (tip\<lparr>nonce := js_increment (nonce tip)\<rparr>) in
              case latestBlock s1 of
                None \<Rightarrow> Rejected TypeError s1
              | Some tip1 \<Rightarrow>
                  if startsWith (Block_computeHash ext tip1) ''000'' then
                    Broadcasting
                      \<lparr> miner_state = s1,
                        exports = map (\<lambda>n. (n, Connecting)) (node_list s1),
                        completed_exports = 0,
                        resolved = False \<rparr>
                  else Resolved s1)))"

text \<open>The callback of \<^verbatim>\<open>net.createConnection\<close> for export \<open>i\<close> (lines 195-198): it
  logs and starts \<^verbatim>\<open>Message.exportBlocks\<close>.\<close>

definition connected :: "nat \<Rightarrow> ('tx, 'h, 'v) broadcast \<Rightarrow> ('tx, 'h, 'v) broadcast" where
  "connected i b = b\<lparr>exports := (exports b)[i := (fst (exports b ! i), Exporting)]\<rparr>"

text \<open>The callback of \<^verbatim>\<open>Message.exportBlocks\<close> for export \<open>i\<close> (lines 198-206):
  \<^verbatim>\<open>client.end()\<close>, the counter incremented and compared with the length that the peer
  list has now, and at equality pushNewBlock and \<^verbatim>\<open>resolve()\<close>.\<close>

definition exported ::
  "('tx, 'h, 'v, 'ty, 'i) externals \<Rightarrow> nat \<Rightarrow> ('tx, 'h, 'v) broadcast \<Rightarrow> ('tx, 'h, 'v) broadcast" where
  "exported ext i b =
     (let b1 = b\<lparr>exports := (exports b)[i := (fst (exports b ! i), Done)]\<rparr>;
          b2 = b1\<lparr>completed_exports := completed_exports b1 + 1\<rparr>
      in if completed_exports b2 = length (node_list (miner_state b2))
         then b2\<lparr>miner_state := pushNewBlock ext (miner_state b2), resolved := True\<rparr>
         else b2)"

text \<open>
  Modelled from the spec: \<^verbatim>\<open>Message.exportBlocks\<close> of src/message.js, which is not among
  the sources, and the connection callback of \<^verbatim>\<open>net\<close>. An export sends the chain and
  signals its completion once; nothing times it out, so it may also never complete. The
  events while the promise of computeHash is pending: a connection of this solve is
  established, an export of this solve completes, or addNodes is called on the node. An
  event that is not enabled gives \<open>None\<close>.
\<close>

datatype event = Connected nat | Exported nat | NodesAdded "node list"

fun broadcast_step ::
  "('tx, 'h, 'v, 'ty, 'i) externals \<Rightarrow> ('tx, 'h, 'v) broadcast \<Rightarrow> event
     \<Rightarrow> ('tx, 'h, 'v) broadcast option" where
  "broadcast_step ext b (Connected i) =
     (if i < length (exports b) \<and> snd (exports b ! i) = Connecting
      then Some (connected i b) else None)"
| "broadcast_step ext b (Exported i) =
     (if i < length (exports b) \<and> snd (exports b ! i) = Exporting
      then Some (exported ext i b) else None)"
| "broadcast_step ext b (NodesAdded nodes) =
     Some (b\<lparr>miner_state := addNodes (miner_state b) nodes\<rparr>)"

fun run_events ::
  "('tx, 'h, 'v, 'ty, 'i) externals \<Rightarrow> ('tx, 'h, 'v) broadcast \<Rightarrow> event list
     \<Rightarrow> ('tx, 'h, 'v) broadcast option" where
  "run_events ext b [] = Some b"
| "run_events ext b (e # es) =
     (case broadcast_step ext b e of None \<Rightarrow> None | Some b' \<Rightarrow> run_events ext b' es)"

text \<open>
  Modelled from the spec: \<^verbatim>\<open>Message.handler\<close> of src/message.js, which is not among the
  sources. The server of the node (lines 38-44) hands every inbound message to it, and it
  routes a new transaction to addTransactionToPool and a replacement chain to
  receiveNewBlockchain. Messages arrive at any time, also while the promise of computeHash
  is pending. A handler that throws leaves the state as it is at the throw.
\<close>

datatype ('tx, 'h) node_event =
    Broadcast event
  | ChainReceived "('tx, 'h) block list"
  | TransactionReceived 'tx

fun chain_received :: "('tx, 'h) node_event \<Rightarrow> bool" where
  "chain_received (Broadcast e) = False"
| "chain_received (ChainReceived candidate) = True"
| "chain_received (TransactionReceived t) = False"

fun node_step ::
  "('tx, 'h, 'v, 'ty, 'i) externals \<Rightarrow> ('tx, 'h, 'v) broadcast \<Rightarrow> ('tx, 'h) node_event
     \<Rightarrow> ('tx, 'h, 'v) broadcast option" where
  "node_step ext b (Broadcast e) = broadcast_step ext b e"
| "node_step ext b (ChainReceived candidate) =
     Some (b\<lparr>miner_state := state_of (receiveNewBlockchain ext (miner_state b) candidate)\<rparr>)"
| "node_step ext b (TransactionReceived t) =
     Some (b\<lparr>miner_state := addTransactionToPool (miner_state b) t\<rparr>)"

fun run_node_events ::
  "('tx, 'h, 'v, 'ty, 'i) externals \<Rightarrow> ('tx, 'h, 'v) broadcast \<Rightarrow> ('tx, 'h) node_event list
     \<Rightarrow> ('tx, 'h, 'v) broadcast option" where
  "run_node_events ext b [] = Some b"
| "run_node_events ext b (e # es) =
     (case node_step ext b e of None \<Rightarrow> None | Some b' \<Rightarrow> run_node_events ext b' es)"

subsection \<open>The invariant of a broadcast\<close>

text \<open>
  What holds at every moment after a solve, for the peers \<open>nodes0\<close> of the solve: the
  exports are those to \<open>nodes0\<close>; the peer list has not become shorter; the counter is
  the number of completed exports; and when the promise is resolved, all exports have
  completed.
\<close>

definition broadcast_inv :: "node list \<Rightarrow> ('tx, 'h, 'v) broadcast \<Rightarrow> bool" where
  "broadcast_inv nodes0 b =
     (map fst (exports b) = nodes0 \<and>
      length nodes0 \<le> length (node_list (miner_state b)) \<and>
      completed_exports b = length (filter (\<lambda>x. snd x = Done) (exports b)) \<and>
      (resolved b \<longrightarrow> list_all (\<lambda>x. snd x = Done) (exports b)))"

subsection \<open>A small instance of the libraries, for concrete runs\<close>

text \<open>
  Transactions that record what they were created from, or carry a name; a transfer is
  accepted when it is not yet in the index, and the transfer named B spends the transfer
  named A, so it needs A in the index. A chain is valid when no nonce is negative. A hash
  meets the target from nonce 2 on.
\<close>

datatype demo_tx =
    Created (demo_creator: string) (demo_signing_key: string) (demo_outputs: "tx_output list")
      (demo_type: string)
  | Transfer string

fun demo_id :: "demo_tx \<Rightarrow> string" where
  "demo_id (Created pub priv outs ty) = ''coin''"
| "demo_id (Transfer name) = name"

fun demo_verify :: "demo_tx \<Rightarrow> (string \<rightharpoonup> demo_tx) \<Rightarrow> (demo_tx, string) block \<Rightarrow> bool" where
  "demo_verify (Created pub priv outs ty) m b = True"
| "demo_verify (Transfer name) m b =
     (if name = ''B'' then m ''A'' = Some (Transfer ''A'') \<and> m name = None else m name = None)"

definition demo_addTransaction ::
  "(demo_tx, string) block \<Rightarrow> demo_tx \<Rightarrow> (demo_tx, string) block" where
  "demo_addTransaction b t =
     (case data b of Array d \<Rightarrow> b\<lparr>data := Array (d @ [t])\<rparr> | NotArray v \<Rightarrow> b)"

definition demo_ext :: "(demo_tx, string, demo_tx, string, string) externals" where
  "demo_ext =
     \<lparr> Transaction_create = (\<lambda>pub priv ins outs ty. Created pub priv outs ty),
       Transaction_TYPES_NEW_COIN = ''NEW_COIN'',
       Transaction_verify = demo_verify,
       Transaction_addToMap = (\<lambda>t m. m(demo_id t \<mapsto> t)),
       Block_create = (\<lambda>marker. \<lparr>data = NotArray marker, nonce = 0, header = ''first''\<rparr>),
       Block_createFrom = (\<lambda>prev. \<lparr>data = Array [], nonce = 0, header = ''next''\<rparr>),
       Block_addTransaction = demo_addTransaction,
       Block_getVerificationMetadata =
         (\<lambda>chain. \<lparr>valid = list_all (\<lambda>b. 0 \<le> nonce b) chain,
                    metadata_transaction_map = Map.empty\<rparr>),
       Block_computeHash = (\<lambda>b. if 2 \<le> nonce b then ''000c0ffee'' else ''abcdef'') \<rparr>"

definition demo_block :: "demo_tx list \<Rightarrow> int \<Rightarrow> (demo_tx, string) block" where
  "demo_block txs n = \<lparr>data = Array txs, nonce = n, header = ''h''\<rparr>"

definition demo_node :: "int \<Rightarrow> node" where
  "demo_node p = \<lparr>address = ''196.24.185.115'', port = p\<rparr>"

text \<open>A node with miner key M and owner key O, a given pool, chain and peer list.\<close>

definition demo_miner ::
  "demo_tx list \<Rightarrow> (demo_tx, string) block list \<Rightarrow> node list \<Rightarrow> bool
     \<Rightarrow> (demo_tx, string, demo_tx) miner" where
  "demo_miner pool chain peers mining =
     (Miner 1337 ''196.24.185.115'' ''M'' ''m-private'' ''O'')
       \<lparr> transaction_pool := pool, blockchain := chain, node_list := peers,
         actively_mining := mining \<rparr>"

section \<open>Properties\<close>

subsection \<open>Genesis bootstrap\<close>

text \<open>
  C6. createGenesisIfNeeded on the empty chain yields the chain of exactly the one block
  \<^verbatim>\<open>Block.create("GENESIS")\<close> and the empty transaction index; on a chain that is not
  empty it changes nothing; so running it a second time changes nothing, and after two
  runs from the empty chain there is one genesis block, not two.
\<close>

theorem createGenesisIfNeeded_idempotent:
  "(blockchain s = [] \<longrightarrow>
      blockchain (createGenesisIfNeeded ext s) = [Block_create ext ''GENESIS''] \<and>
      transaction_map (createGenesisIfNeeded ext s) = Map.empty \<and>
      blockchain (createGenesisIfNeeded ext (createGenesisIfNeeded ext s))
        = [Block_create ext ''GENESIS'']) \<and>
   (blockchain s \<noteq> [] \<longrightarrow> createGenesisIfNeeded ext s = s) \<and>
   createGenesisIfNeeded ext (createGenesisIfNeeded ext s) = createGenesisIfNeeded ext s"
  by (simp add: createGenesisIfNeeded_def createGenesisBlock_def)

theorem createGenesisIfNeeded_idempotent_witness:
  "blockchain (Miner 1337 ''h'' ''M'' ''m'' ''O'' :: (demo_tx, string, demo_tx) miner) = [] \<and>
   blockchain (createGenesisIfNeeded demo_ext (createGenesisIfNeeded demo_ext
       (Miner 1337 ''h'' ''M'' ''m'' ''O''))) = [Block_create demo_ext ''GENESIS''] \<and>
   blockchain (demo_miner [] [demo_block [] 0] [] False) \<noteq> [] \<and>
   createGenesisIfNeeded demo_ext (demo_miner [] [demo_block [] 0] [] False)
     = demo_miner [] [demo_block [] 0] [] False"
  using createGenesisIfNeeded_idempotent
          [where s = "Miner 1337 ''h'' ''M'' ''m'' ''O'' :: (demo_tx, string, demo_tx) miner"
             and ext = demo_ext]
        createGenesisIfNeeded_idempotent
          [where s = "demo_miner [] [demo_block [] 0] [] False" and ext = demo_ext]
  by (simp add: Miner_def demo_miner_def)

subsection \<open>Helper facts on the tip of the chain\<close>

lemma latestBlock_Some:
  "latestBlock s = Some tip \<Longrightarrow> blockchain s \<noteq> [] \<and> tip = last (blockchain s)"
  by (auto simp: latestBlock_def last_conv_nth split: if_splits)

lemma list_update_last:
  "xs \<noteq> [] \<Longrightarrow> xs[length xs - 1 := b] = butlast xs @ [b]"
  by (induction xs rule: rev_induct) (simp_all add: list_update_append)

lemma setLatestBlock_butlast:
  "blockchain s \<noteq> [] \<Longrightarrow> setLatestBlock s b = s\<lparr>blockchain := butlast (blockchain s) @ [b]\<rparr>"
  using list_update_last [of "blockchain s" b] by (simp add: setLatestBlock_def)

lemma latestBlock_snoc:
  "latestBlock (s\<lparr>blockchain := xs @ [b]\<rparr>) = Some b"
  by (simp add: latestBlock_def)

lemma foldl_addTransactionToPool:
  "foldl addTransactionToPool s txs = s\<lparr>transaction_pool := transaction_pool s @ txs\<rparr>"
  by (induction txs arbitrary: s) (simp_all add: addTransactionToPool_def)

subsection \<open>Chain replacement\<close>

text \<open>
  C1. receiveNewBlockchain adopts the candidate only if it is strictly longer than the
  current chain and \<^verbatim>\<open>Block.getVerificationMetadata\<close> reports it valid. If the candidate
  is not longer (equal length included) or is reported invalid, the call returns with the
  whole state of the node as it was: chain, transaction index, pool and the rest. And
  whenever the chain or the index differ after the call, returned or thrown, the candidate
  was strictly longer and valid.
\<close>

theorem receiveNewBlockchain_rejects:
  "(\<not> (length candidate > length (blockchain s) \<and>
        valid (Block_getVerificationMetadata ext candidate)) \<longrightarrow>
      receiveNewBlockchain ext s candidate = Returned s) \<and>
   (blockchain (state_of (receiveNewBlockchain ext s candidate)) \<noteq> blockchain s \<or>
    transaction_map (state_of (receiveNewBlockchain ext s candidate)) \<noteq> transaction_map s \<longrightarrow>
      length candidate > length (blockchain s) \<and>
      valid (Block_getVerificationMetadata ext candidate))"
  by (auto simp: receiveNewBlockchain_def Let_def split: option.splits payload.splits)

text \<open>A candidate of equal length, a longer one with a negative nonce (invalid), and a
  longer valid one, which is adopted.\<close>

theorem receiveNewBlockchain_rejects_witness:
  "receiveNewBlockchain demo_ext
      (demo_miner [] [demo_block [] 0, demo_block [Transfer ''A''] 0] [] False)
      [demo_block [] 0, demo_block [] 1]
     = Returned (demo_miner [] [demo_block [] 0, demo_block [Transfer ''A''] 0] [] False) \<and>
   receiveNewBlockchain demo_ext
      (demo_miner [] [demo_block [] 0, demo_block [Transfer ''A''] 0] [] False)
      [demo_block [] 0, demo_block [] 1, demo_block [] (- 1)]
     = Returned (demo_miner [] [demo_block [] 0, demo_block [Transfer ''A''] 0] [] False) \<and>
   blockchain (state_of (receiveNewBlockchain demo_ext
      (demo_miner [] [demo_block [] 0, demo_block [Transfer ''A''] 0] [] False)
      [demo_block [] 0, demo_block [] 1, demo_block [] 3]))
     \<noteq> blockchain (demo_miner [] [demo_block [] 0, demo_block [Transfer ''A''] 0] [] False) \<and>
   valid (Block_getVerificationMetadata demo_ext
      [demo_block [] 0, demo_block [] 1, demo_block [] 3])"
proof -
  let ?s = "demo_miner [] [demo_block [] 0, demo_block [Transfer ''A''] 0] [] False"
  have len: "length (blockchain ?s) = 2"
    by (simp add: demo_miner_def)
  have invalid: "\<not> valid (Block_getVerificationMetadata demo_ext
      [demo_block [] 0, demo_block [] 1, demo_block [] (- 1)])"
    by (simp add: demo_ext_def demo_block_def)
  have changed: "blockchain (state_of (receiveNewBlockchain demo_ext ?s
      [demo_block [] 0, demo_block [] 1, demo_block [] 3])) \<noteq> blockchain ?s"
    by (simp add: receiveNewBlockchain_def demo_ext_def demo_block_def demo_miner_def Miner_def
        latestBlock_def pushNewBlock_def addTransactionToPool_def Let_def)
  have r1: "receiveNewBlockchain demo_ext ?s [demo_block [] 0, demo_block [] 1] = Returned ?s"
    using len
      receiveNewBlockchain_rejects
        [where candidate = "[demo_block [] 0, demo_block [] 1]" and s = ?s and ext = demo_ext,
          THEN conjunct1]
    by simp
  have r2: "receiveNewBlockchain demo_ext ?s
      [demo_block [] 0, demo_block [] 1, demo_block [] (- 1)] = Returned ?s"
    using invalid
      receiveNewBlockchain_rejects
        [where candidate = "[demo_block [] 0, demo_block [] 1, demo_block [] (- 1)]" and s = ?s
           and ext = demo_ext, THEN conjunct1]
    by blast
  have r3: "valid (Block_getVerificationMetadata demo_ext
      [demo_block [] 0, demo_block [] 1, demo_block [] 3])"
    using changed
      receiveNewBlockchain_rejects
        [where candidate = "[demo_block [] 0, demo_block [] 1, demo_block [] 3]" and s = ?s
           and ext = demo_ext, THEN conjunct2]
    by blast
  show ?thesis
    using r1 r2 r3 changed by blast
qed

text \<open>
  What the call does when the candidate is strictly longer and valid and the current chain
  has a tip whose data is a list of transactions: it returns; the pool is the old pool,
  followed by every transaction of the old tip's data, followed by one coinbase
  transaction; the chain is the candidate followed by one new block created from the
  candidate's last block, so its length is the candidate's plus one; the transaction index
  is the one the verification of the candidate returned; nothing else changes.
\<close>

lemma receiveNewBlockchain_adopts:
  assumes "length candidate > length (blockchain s)"
    and "valid (Block_getVerificationMetadata ext candidate)"
    and "latestBlock s = Some tip" and "data tip = Array txs"
  shows "receiveNewBlockchain ext s candidate =
           Returned (s\<lparr> transaction_pool := transaction_pool s @ txs @ [createNewCoin ext s],
                        transaction_map :=
                          metadata_transaction_map (Block_getVerificationMetadata ext candidate),
                        blockchain := candidate @ [Block_createFrom ext (Some (last candidate))] \<rparr>) \<and>
         length (blockchain (state_of (receiveNewBlockchain ext s candidate)))
           = length candidate + 1"
  using assms
  by (auto simp: receiveNewBlockchain_def Let_def foldl_addTransactionToPool pushNewBlock_def
      addTransactionToPool_def createNewCoin_def latestBlock_def last_conv_nth)

lemma receiveNewBlockchain_adopts_example:
  "transaction_pool (state_of (receiveNewBlockchain demo_ext
      (demo_miner [Transfer ''C''] [demo_block [] 0, demo_block [Transfer ''A''] 0] [] False)
      [demo_block [] 0, demo_block [] 1, demo_block [] 3]))
     = [Transfer ''C'', Transfer ''A'',
        Created ''M'' ''m-private''
          [\<lparr>output_owner_public_key = ''M'', output_value = 1\<rparr>] ''NEW_COIN''] \<and>
   length (blockchain (state_of (receiveNewBlockchain demo_ext
      (demo_miner [Transfer ''C''] [demo_block [] 0, demo_block [Transfer ''A''] 0] [] False)
      [demo_block [] 0, demo_block [] 1, demo_block [] 3]))) = 4"
proof -
  let ?s = "demo_miner [Transfer ''C''] [demo_block [] 0, demo_block [Transfer ''A''] 0] [] False"
  let ?c = "[demo_block [] 0, demo_block [] 1, demo_block [] 3]"
  have 1: "length ?c > length (blockchain ?s)"
    by (simp add: demo_miner_def)
  have 2: "valid (Block_getVerificationMetadata demo_ext ?c)"
    by (simp add: demo_ext_def demo_block_def)
  have 3: "latestBlock ?s = Some (demo_block [Transfer ''A''] 0)"
    by (simp add: latestBlock_def demo_miner_def)
  have 4: "data (demo_block [Transfer ''A''] 0) = Array [Transfer ''A'']"
    by (simp add: demo_block_def)
  show ?thesis
    using receiveNewBlockchain_adopts [OF 1 2 3 4]
    by (simp add: createNewCoin_def demo_ext_def demo_miner_def Miner_def)
qed

text \<open>
  C2, where the code departs from it. A candidate that is strictly longer and valid is not
  adopted when the tip of the current chain holds no list of transactions, which is so on
  the empty chain (there is no tip) and on a chain whose tip has the genesis marker for
  its payload: line 153 throws a TypeError before anything is written, so the chain and
  the transaction index are not replaced, no new block is pushed and no coinbase
  transaction is enqueued.
\<close>

theorem receiveNewBlockchain_not_adopted_without_transaction_list:
  assumes "length candidate > length (blockchain s)"
    and "valid (Block_getVerificationMetadata ext candidate)"
    and "latestBlock s = None \<or> (\<exists>tip marker. latestBlock s = Some tip \<and> data tip = NotArray marker)"
  shows "receiveNewBlockchain ext s candidate = Thrown TypeError s"
  using assms by (auto simp: receiveNewBlockchain_def)

text \<open>A node that has only bootstrapped its genesis block and receives a valid chain of two
  blocks: its chain is still the genesis block alone and its pool is still empty.\<close>

theorem receiveNewBlockchain_not_adopted_without_transaction_list_witness:
  "receiveNewBlockchain demo_ext
      (createGenesisIfNeeded demo_ext (Miner 1337 ''196.24.185.115'' ''M'' ''m-private'' ''O''))
      [demo_block [] 0, demo_block [] 1]
     = Thrown TypeError
         (createGenesisIfNeeded demo_ext (Miner 1337 ''196.24.185.115'' ''M'' ''m-private'' ''O'')) \<and>
   blockchain (createGenesisIfNeeded demo_ext
      (Miner 1337 ''196.24.185.115'' ''M'' ''m-private'' ''O'' :: (demo_tx, string, demo_tx) miner))
     = [\<lparr>data = NotArray ''GENESIS'', nonce = 0, header = ''first''\<rparr>] \<and>
   transaction_pool (createGenesisIfNeeded demo_ext
      (Miner 1337 ''196.24.185.115'' ''M'' ''m-private'' ''O'' :: (demo_tx, string, demo_tx) miner))
     = []"
proof -
  let ?s = "createGenesisIfNeeded demo_ext
    (Miner 1337 ''196.24.185.115'' ''M'' ''m-private'' ''O'' :: (demo_tx, string, demo_tx) miner)"
  let ?c = "[demo_block [] 0, demo_block [] 1] :: (demo_tx, string) block list"
  have chain: "blockchain ?s = [\<lparr>data = NotArray ''GENESIS'', nonce = 0, header = ''first''\<rparr>]"
    by (simp add: createGenesisIfNeeded_def createGenesisBlock_def Miner_def demo_ext_def)
  have pool: "transaction_pool ?s = []"
    by (simp add: createGenesisIfNeeded_def createGenesisBlock_def Miner_def)
  have 1: "length ?c > length (blockchain ?s)"
    by (simp add: chain)
  have 2: "valid (Block_getVerificationMetadata demo_ext ?c)"
    by (simp add: demo_ext_def demo_block_def)
  have 3: "latestBlock ?s = None \<or>
      (\<exists>tip marker. latestBlock ?s = Some tip \<and> data tip = NotArray marker)"
    by (simp add: latestBlock_def chain)
  show ?thesis
    using receiveNewBlockchain_not_adopted_without_transaction_list [OF 1 2 3] chain pool
    by blast
qed

text \<open>
  C10. When the current chain is empty, \<^verbatim>\<open>latestBlock\<close> is undefined, and a candidate of
  length at least 1 that passes verification makes receiveNewBlockchain throw a TypeError
  at the read of the tip's data: the candidate is not adopted and the state is as before.
\<close>

theorem receiveNewBlockchain_empty_chain_throws:
  assumes "blockchain s = []" and "1 \<le> length candidate"
    and "valid (Block_getVerificationMetadata ext candidate)"
  shows "latestBlock s = None \<and> receiveNewBlockchain ext s candidate = Thrown TypeError s"
  using assms by (auto simp add: receiveNewBlockchain_def latestBlock_def)

theorem receiveNewBlockchain_empty_chain_throws_witness:
  "receiveNewBlockchain demo_ext (demo_miner [] [] [] False) [demo_block [] 0]
     = Thrown TypeError (demo_miner [] [] [] False)"
proof -
  have 1: "blockchain (demo_miner [] [] [] False) = []"
    by (simp add: demo_miner_def)
  have 2: "1 \<le> length [demo_block [] 0]"
    by simp
  have 3: "valid (Block_getVerificationMetadata demo_ext [demo_block [] 0])"
    by (simp add: demo_ext_def demo_block_def)
  show ?thesis
    using receiveNewBlockchain_empty_chain_throws [OF 1 2 3] by simp
qed

subsection \<open>Hashing\<close>

lemma js_increment_exact: "- (2 ^ 53) \<le> n \<Longrightarrow> n < 2 ^ 53 \<Longrightarrow> js_increment n = n + 1"
  by (simp add: js_increment_def round_to_double_def abs_le_iff)

text \<open>At \<open>2^53\<close> the increment is lost, as in JavaScript, where
  \<^verbatim>\<open>9007199254740992 + 1\<close> is \<^verbatim>\<open>9007199254740992\<close>.\<close>

lemma bit_length_bounds: "2 ^ k \<le> m \<Longrightarrow> m < 2 ^ Suc k \<Longrightarrow> bit_length m = Suc k"
proof (induction k arbitrary: m)
  case 0
  then have "m = 1" by simp
  then show ?case by (simp add: bit_length.simps)
next
  case (Suc k)
  then have "0 < m" and "2 ^ k \<le> m div 2" and "m div 2 < 2 ^ Suc k"
    by auto
  then show ?case
    using Suc.IH [of "m div 2"] by (subst bit_length.simps) simp
qed

lemma js_increment_stays_at_2_53: "js_increment (2 ^ 53) = 2 ^ 53"
proof -
  have "bit_length \<bar>2 ^ 53 + 1\<bar> = Suc 53"
    by (rule bit_length_bounds) simp_all
  then show ?thesis
    by (simp add: js_increment_def round_to_double_def Let_def)
qed

text \<open>
  C7. When the node is not actively mining, computeHash gives the promise of
  \<^verbatim>\<open>Util.delay(100)\<close> and the state is as it was. When it is actively mining, the chain
  has a tip whose nonce lies from \<open>- 2^53\<close> to \<open>2^53 - 1\<close> (where the increment of a
  JavaScript number is exact), and the hash of the tip with its nonce incremented does not
  start with 000, the promise resolves with the state changed in one place only: the last
  block of the chain has its nonce incremented by one (pool, index, peers, the other
  blocks, and the data and header of the tip are as they were).
\<close>

theorem computeHash_frame:
  "(\<not> actively_mining s \<longrightarrow> computeHash ext s = Delayed 100 s) \<and>
   (actively_mining s \<and> latestBlock s = Some tip \<and>
    - (2 ^ 53) \<le> nonce tip \<and> nonce tip < 2 ^ 53 \<and>
    \<not> startsWith (Block_computeHash ext (tip\<lparr>nonce := nonce tip + 1\<rparr>)) ''000'' \<longrightarrow>
      computeHash ext s =
        Resolved (s\<lparr>blockchain := butlast (blockchain s) @ [tip\<lparr>nonce := nonce tip + 1\<rparr>]\<rparr>))"
proof (intro conjI impI)
  assume "\<not> actively_mining s"
  then show "computeHash ext s = Delayed 100 s"
    by (simp add: computeHash_def)
next
  assume a: "actively_mining s \<and> latestBlock s = Some tip \<and>
    - (2 ^ 53) \<le> nonce tip \<and> nonce tip < 2 ^ 53 \<and>
    \<not> startsWith (Block_computeHash ext (tip\<lparr>nonce := nonce tip + 1\<rparr>)) ''000''"
  then have ne: "blockchain s \<noteq> []"
    using latestBlock_Some by blast
  have inc: "js_increment (nonce tip) = nonce tip + 1"
    using a by (simp add: js_increment_exact)
  let ?s1 = "s\<lparr>blockchain := butlast (blockchain s) @ [tip\<lparr>nonce := nonce tip + 1\<rparr>]\<rparr>"
  have s1: "setLatestBlock s (tip\<lparr>nonce := nonce tip + 1\<rparr>) = ?s1"
    using ne by (rule setLatestBlock_butlast)
  have l1: "latestBlock ?s1 = Some (tip\<lparr>nonce := nonce tip + 1\<rparr>)"
    by (rule latestBlock_snoc)
  show "computeHash ext s = Resolved ?s1"
    using a by (simp add: computeHash_def inc s1 l1 del: One_nat_def)
qed

theorem computeHash_frame_witness:
  "computeHash demo_ext (demo_miner [Transfer ''A''] [demo_block [] 0] [] False)
     = Delayed 100 (demo_miner [Transfer ''A''] [demo_block [] 0] [] False) \<and>
   computeHash demo_ext (demo_miner [Transfer ''A''] [demo_block [] 5, demo_block [] 0] [] True)
     = Resolved (demo_miner [Transfer ''A''] [demo_block [] 5, demo_block [] 1] [] True)"
proof -
  let ?idle = "demo_miner [Transfer ''A''] [demo_block [] 0] [] False"
  let ?busy = "demo_miner [Transfer ''A''] [demo_block [] 5, demo_block [] 0] [] True"
  have idle: "\<not> actively_mining ?idle"
    by (simp add: demo_miner_def)
  have busy: "actively_mining ?busy \<and> latestBlock ?busy = Some (demo_block [] 0) \<and>
      - (2 ^ 53) \<le> nonce (demo_block [] 0 :: (demo_tx, string) block) \<and>
      nonce (demo_block [] 0 :: (demo_tx, string) block) < 2 ^ 53 \<and>
      \<not> startsWith (Block_computeHash demo_ext
            ((demo_block [] 0)\<lparr>nonce := nonce (demo_block [] 0) + 1\<rparr>)) ''000''"
    by (simp add: demo_miner_def latestBlock_def demo_ext_def demo_block_def startsWith_def)
  have r1: "computeHash demo_ext ?idle = Delayed 100 ?idle"
    using idle computeHash_frame [where s = ?idle and ext = demo_ext, THEN conjunct1] by blast
  have r2: "computeHash demo_ext ?busy =
      Resolved (?busy\<lparr>blockchain := butlast (blockchain ?busy) @
        [(demo_block [] 0)\<lparr>nonce := nonce (demo_block [] 0) + 1\<rparr>]\<rparr>)"
    using busy
      computeHash_frame [where s = ?busy and tip = "demo_block [] 0" and ext = demo_ext,
        THEN conjunct2]
    by blast
  show ?thesis
    using r1 r2 by (simp add: demo_miner_def demo_block_def)
qed

subsection \<open>The coinbase transaction\<close>

text \<open>
  C8, as amended. Every coinbase transaction the node creates is
  \<^verbatim>\<open>Transaction.create\<close> of the node's miner public key, its miner private key, no
  inputs, the one output that credits the miner public key (not the configured owner
  public key) with the fixed value 1, and the type \<^verbatim>\<open>NEW_COIN\<close>. The owner public key
  has no influence on it. pushNewBlock, the one place that creates a coinbase transaction,
  appends exactly this transaction to the pool.
\<close>

theorem createNewCoin_credits_miner_key:
  "createNewCoin ext s =
     Transaction_create ext (miner_public_key s) (miner_private_key s) []
       [\<lparr>output_owner_public_key = miner_public_key s, output_value = 1\<rparr>]
       (Transaction_TYPES_NEW_COIN ext) \<and>
   createNewCoin ext (s\<lparr>owner_public_key := k\<rparr>) = createNewCoin ext s \<and>
   transaction_pool (pushNewBlock ext s) = transaction_pool s @
     [Transaction_create ext (miner_public_key s) (miner_private_key s) []
       [\<lparr>output_owner_public_key = miner_public_key s, output_value = 1\<rparr>]
       (Transaction_TYPES_NEW_COIN ext)]"
  by (simp add: createNewCoin_def pushNewBlock_def addTransactionToPool_def)

text \<open>C8 as stated fails for a node whose owner key O differs from its miner key M: the
  key credited by its coinbase transaction is not the owner key.\<close>

theorem createNewCoin_owner_counterexample:
  "map output_owner_public_key
     (demo_outputs (createNewCoin demo_ext (demo_miner [] [] [] False)))
   \<noteq> [owner_public_key (demo_miner [] [] [] False)]"
  by (simp add: createNewCoin_def demo_ext_def demo_miner_def Miner_def)

subsection \<open>Peers\<close>

lemma foldl_found:
  "foldl (\<lambda>found our_node. if P our_node then True else found) acc l
     = (acc \<or> (\<exists>our\<in>set l. P our))"
  by (induction l arbitrary: acc) auto

lemma already_in_list_iff:
  "already_in_list n l = (\<exists>our\<in>set l. address n = address our \<and> port n = port our)"
  unfolding already_in_list_def by (simp add: foldl_found)

text \<open>A peer is its address and its port, so an entry with the same address and port is
  an equal entry.\<close>

lemma node_eq_iff: "(n = our) = (address n = address our \<and> port n = port our)"
  for n our :: node
  by (cases n, cases our) simp

lemma node_mem_iff:
  "(n \<in> set l) = (\<exists>our\<in>set l. address n = address our \<and> port n = port our)"
  for n :: node
proof
  assume "n \<in> set l"
  then show "\<exists>our\<in>set l. address n = address our \<and> port n = port our"
    by blast
next
  assume "\<exists>our\<in>set l. address n = address our \<and> port n = port our"
  then obtain our where "our \<in> set l" and "n = our"
    using node_eq_iff by blast
  then show "n \<in> set l"
    by simp
qed

lemma already_in_list_mem: "already_in_list n l = (n \<in> set l)"
  by (simp add: already_in_list_iff node_mem_iff [symmetric])

lemma node_list_addNode:
  "node_list (addNode s n) =
     (if \<exists>our\<in>set (node_list s). address n = address our \<and> port n = port our
      then node_list s else node_list s @ [n])"
  by (simp add: addNode_def already_in_list_iff)

lemma addNode_present:
  "\<exists>our\<in>set (node_list s). address n = address our \<and> port n = port our \<Longrightarrow> addNode s n = s"
  by (simp add: addNode_def already_in_list_iff)

lemma addNode_twice: "addNode (addNode s n) n = addNode s n"
proof (cases "\<exists>our\<in>set (node_list s). address n = address our \<and> port n = port our")
  case True
  then show ?thesis by (simp add: addNode_present)
next
  case False
  then have "node_list (addNode s n) = node_list s @ [n]"
    by (simp add: node_list_addNode)
  then have "\<exists>our\<in>set (node_list (addNode s n)). address n = address our \<and> port n = port our"
    by simp
  then show ?thesis by (rule addNode_present)
qed

lemma count_addNode:
  "length (filter (\<lambda>our. address our = address n \<and> port our = port n) (node_list (addNode s n)))
     = (if filter (\<lambda>our. address our = address n \<and> port our = port n) (node_list s) = []
        then 1 else length (filter (\<lambda>our. address our = address n \<and> port our = port n) (node_list s)))"
  by (auto simp: node_list_addNode filter_empty_conv)

lemma distinct_addNode:
  "distinct (map (\<lambda>m. (address m, port m)) (node_list s)) \<Longrightarrow>
     distinct (map (\<lambda>m. (address m, port m)) (node_list (addNode s n)))"
  by (auto simp: node_list_addNode)

lemma distinct_addNodes:
  "distinct (map (\<lambda>m. (address m, port m)) (node_list s)) \<Longrightarrow>
     distinct (map (\<lambda>m. (address m, port m)) (node_list (addNodes s nodes)))"
  unfolding addNodes_def
proof (induction nodes arbitrary: s)
  case Nil
  then show ?case by simp
next
  case (Cons n nodes)
  from Cons.prems have "distinct (map (\<lambda>m. (address m, port m)) (node_list (addNode s n)))"
    by (rule distinct_addNode)
  then show ?case
    using Cons.IH by simp
qed

text \<open>The given nodes by first occurrence: \<open>rev (remdups (rev nodes))\<close> keeps of every
  node the first of its occurrences, in the order of \<open>nodes\<close>.\<close>

lemma first_occurrences_snoc:
  "rev (remdups (rev (xs @ [x]))) =
     (if x \<in> set xs then rev (remdups (rev xs)) else rev (remdups (rev xs)) @ [x])"
  by simp

text \<open>What one call of addNodes does to the peer list, for any list of nodes.\<close>

lemma addNodes_appends_new:
  "addNodes s nodes =
     s\<lparr>node_list := node_list s @
          filter (\<lambda>m. m \<notin> set (node_list s)) (rev (remdups (rev nodes)))\<rparr>"
proof (induction nodes rule: rev_induct)
  case Nil
  show ?case by (simp add: addNodes_def)
next
  case (snoc n nodes)
  let ?new = "filter (\<lambda>m. m \<notin> set (node_list s)) (rev (remdups (rev nodes)))"
  have step: "addNodes s (nodes @ [n]) = addNode (addNodes s nodes) n"
    by (simp add: addNodes_def)
  have mem: "(n \<in> set (node_list s @ ?new)) = (n \<in> set (node_list s) \<or> n \<in> set nodes)"
    by auto
  show ?case
  proof (cases "n \<in> set (node_list s) \<or> n \<in> set nodes")
    case True
    then have "addNode (addNodes s nodes) n = addNodes s nodes"
      using mem by (simp add: snoc.IH addNode_def already_in_list_mem)
    moreover have "filter (\<lambda>m. m \<notin> set (node_list s)) (rev (remdups (rev (nodes @ [n])))) = ?new"
      using True by (auto simp: first_occurrences_snoc simp del: rev_append remdups.simps)
    ultimately show ?thesis
      using step snoc.IH by simp
  next
    case False
    then have "addNode (addNodes s nodes) n = s\<lparr>node_list := node_list s @ ?new @ [n]\<rparr>"
      using mem by (simp add: snoc.IH addNode_def already_in_list_mem)
    moreover have "filter (\<lambda>m. m \<notin> set (node_list s)) (rev (remdups (rev (nodes @ [n]))))
        = ?new @ [n]"
      using False by (auto simp: first_occurrences_snoc simp del: rev_append remdups.simps)
    ultimately show ?thesis
      using step by simp
  qed
qed

text \<open>
  C9. For every peer list and every list of nodes given to addNodes: the peer list
  afterwards is the old list followed by those given nodes that have no entry of the same
  address and port in it, each once, in the order of their first occurrence, and nothing
  else of the state changes; so every given node has an entry afterwards. Entries are
  compared by the values of address and port (the model has no object identity). For one
  node: it is appended only if no entry has its address and port, and the list stays as
  it is otherwise; adding the same node a second time, in a second call or twice in one
  call, changes nothing. So on a list that holds the pair at most once, as every list
  that addNodes built from the empty one does, the pair has exactly one entry after it
  was added twice; and a list in which no pair occurs twice stays so under every call of
  addNodes.
\<close>

theorem addNodes_idempotent:
  "addNodes s nodes =
     s\<lparr>node_list := node_list s @
          filter (\<lambda>m. m \<notin> set (node_list s)) (rev (remdups (rev nodes)))\<rparr> \<and>
   set (node_list (addNodes s nodes)) = set (node_list s) \<union> set nodes \<and>
   ((peer :: node) \<in> set l) =
     (\<exists>our\<in>set l. address peer = address our \<and> port peer = port our) \<and>
   node_list (addNodes s [n]) =
     (if \<exists>our\<in>set (node_list s). address n = address our \<and> port n = port our
      then node_list s else node_list s @ [n]) \<and>
   addNodes (addNodes s [n]) [n] = addNodes s [n] \<and>
   addNodes s [n, n] = addNodes s [n] \<and>
   (length (filter (\<lambda>our. address our = address n \<and> port our = port n) (node_list s)) \<le> 1 \<longrightarrow>
    length (filter (\<lambda>our. address our = address n \<and> port our = port n)
              (node_list (addNodes (addNodes s [n]) [n]))) = 1) \<and>
   (distinct (map (\<lambda>m. (address m, port m)) (node_list s)) \<longrightarrow>
    distinct (map (\<lambda>m. (address m, port m)) (node_list (addNodes s nodes))))"
proof (intro conjI impI)
  show "addNodes s nodes =
     s\<lparr>node_list := node_list s @
          filter (\<lambda>m. m \<notin> set (node_list s)) (rev (remdups (rev nodes)))\<rparr>"
    by (rule addNodes_appends_new)
  show "set (node_list (addNodes s nodes)) = set (node_list s) \<union> set nodes"
    by (auto simp: addNodes_appends_new)
  show "(peer \<in> set l) = (\<exists>our\<in>set l. address peer = address our \<and> port peer = port our)"
    by (rule node_mem_iff)
  show "node_list (addNodes s [n]) =
     (if \<exists>our\<in>set (node_list s). address n = address our \<and> port n = port our
      then node_list s else node_list s @ [n])"
    by (simp add: addNodes_def node_list_addNode)
  show "addNodes (addNodes s [n]) [n] = addNodes s [n]"
    by (simp add: addNodes_def addNode_twice)
  show "addNodes s [n, n] = addNodes s [n]"
    by (simp add: addNodes_def addNode_twice)
next
  assume le: "length (filter (\<lambda>our. address our = address n \<and> port our = port n) (node_list s)) \<le> 1"
  have "addNodes (addNodes s [n]) [n] = addNode s n"
    by (simp add: addNodes_def addNode_twice)
  moreover have "length (filter (\<lambda>our. address our = address n \<and> port our = port n)
              (node_list (addNode s n))) = 1"
    using le unfolding count_addNode
    by (cases "filter (\<lambda>our. address our = address n \<and> port our = port n) (node_list s)") auto
  ultimately show "length (filter (\<lambda>our. address our = address n \<and> port our = port n)
              (node_list (addNodes (addNodes s [n]) [n]))) = 1"
    by simp
next
  assume "distinct (map (\<lambda>m. (address m, port m)) (node_list s))"
  then show "distinct (map (\<lambda>m. (address m, port m)) (node_list (addNodes s nodes)))"
    by (rule distinct_addNodes)
qed

text \<open>The peer list of the second miner of the driver: the same peer added twice, and a
  call with a known peer, a new one twice and a second new one.\<close>

theorem addNodes_idempotent_witness:
  "node_list (addNodes (addNodes (demo_miner [] [] [demo_node 1337] False) [demo_node 1338])
       [demo_node 1338]) = [demo_node 1337, demo_node 1338] \<and>
   length (filter (\<lambda>our. address our = address (demo_node 1338) \<and> port our = port (demo_node 1338))
     (node_list (addNodes (addNodes (demo_miner [] [] [demo_node 1337] False) [demo_node 1338])
       [demo_node 1338]))) = 1 \<and>
   node_list (addNodes (demo_miner [] [] [demo_node 1337] False)
       [demo_node 1338, demo_node 1337, demo_node 1338, demo_node 1339])
     = [demo_node 1337, demo_node 1338, demo_node 1339] \<and>
   distinct (map (\<lambda>m. (address m, port m))
     (node_list (addNodes (demo_miner [] [] [demo_node 1337] False)
       [demo_node 1338, demo_node 1337, demo_node 1338, demo_node 1339])))"
proof -
  let ?s = "demo_miner [] [] [demo_node 1337] False"
  let ?nodes = "[demo_node 1338, demo_node 1337, demo_node 1338, demo_node 1339]"
  have dist: "distinct (map (\<lambda>m. (address m, port m)) (node_list ?s))"
    by (simp add: demo_miner_def)
  have le: "length (filter (\<lambda>our. address our = address (demo_node 1338) \<and>
      port our = port (demo_node 1338)) (node_list ?s)) \<le> 1"
    by (simp add: demo_miner_def)
  have absent: "\<not> (\<exists>our\<in>set (node_list ?s).
      address (demo_node 1338) = address our \<and> port (demo_node 1338) = port our)"
    by (simp add: demo_miner_def demo_node_def)
  have nl: "node_list ?s = [demo_node 1337]"
    by (simp add: demo_miner_def)
  note inst = addNodes_idempotent [where s = ?s and n = "demo_node 1338" and nodes = ?nodes]
  have once: "node_list (addNodes ?s [demo_node 1338]) =
      (if \<exists>our\<in>set (node_list ?s).
            address (demo_node 1338) = address our \<and> port (demo_node 1338) = port our
       then node_list ?s else node_list ?s @ [demo_node 1338])"
    using inst by blast
  have again: "addNodes (addNodes ?s [demo_node 1338]) [demo_node 1338]
      = addNodes ?s [demo_node 1338]"
    using inst by blast
  have twice: "node_list (addNodes (addNodes ?s [demo_node 1338]) [demo_node 1338])
      = [demo_node 1337, demo_node 1338]"
    unfolding again once using absent nl by simp
  have one: "length (filter (\<lambda>our. address our = address (demo_node 1338) \<and>
      port our = port (demo_node 1338))
      (node_list (addNodes (addNodes ?s [demo_node 1338]) [demo_node 1338]))) = 1"
    using inst le by blast
  have "addNodes ?s ?nodes =
      ?s\<lparr>node_list := node_list ?s @
          filter (\<lambda>m. m \<notin> set (node_list ?s)) (rev (remdups (rev ?nodes)))\<rparr>"
    using inst by blast
  then have many: "node_list (addNodes ?s ?nodes)
      = [demo_node 1337, demo_node 1338, demo_node 1339]"
    by (simp add: demo_miner_def demo_node_def)
  have kept: "distinct (map (\<lambda>m. (address m, port m)) (node_list (addNodes ?s ?nodes)))"
    using inst dist by blast
  show ?thesis
    using twice one many kept by blast
qed

subsection \<open>Broadcast on solve\<close>

lemma node_list_pushNewBlock: "node_list (pushNewBlock ext s) = node_list s"
  by (simp add: pushNewBlock_def addTransactionToPool_def Let_def)

lemma node_list_receiveNewBlockchain:
  "node_list (state_of (receiveNewBlockchain ext s candidate)) = node_list s"
  by (simp add: receiveNewBlockchain_def Let_def node_list_pushNewBlock
      foldl_addTransactionToPool split: option.splits payload.splits)

lemma length_node_list_addNode: "length (node_list s) \<le> length (node_list (addNode s n))"
  by (simp add: addNode_def)

lemma length_node_list_addNodes: "length (node_list s) \<le> length (node_list (addNodes s nodes))"
  unfolding addNodes_def
proof (induction nodes arbitrary: s)
  case Nil
  show ?case by simp
next
  case (Cons n nodes)
  have "length (node_list s) \<le> length (node_list (addNode s n))"
    by (rule length_node_list_addNode)
  also have "\<dots> \<le> length (node_list (foldl addNode (addNode s n) nodes))"
    by (rule Cons.IH)
  finally show ?case by simp
qed

lemma addNodes_keeps_chain_and_pool:
  "blockchain (addNodes s nodes) = blockchain s \<and>
   transaction_pool (addNodes s nodes) = transaction_pool s"
  unfolding addNodes_def
  by (induction nodes arbitrary: s) (simp_all add: addNode_def)

lemma count_done_update:
  "i < length xs \<Longrightarrow> snd (xs ! i) \<noteq> Done \<Longrightarrow>
     length (filter (\<lambda>x. snd x = Done) (xs[i := (a, Done)]))
       = Suc (length (filter (\<lambda>x. snd x = Done) xs))"
proof (induction xs arbitrary: i)
  case Nil
  then show ?case by simp
next
  case (Cons x xs)
  then show ?case by (cases i) auto
qed

lemma count_done_update_other:
  "i < length xs \<Longrightarrow> snd (xs ! i) \<noteq> Done \<Longrightarrow> p \<noteq> Done \<Longrightarrow>
     length (filter (\<lambda>x. snd x = Done) (xs[i := (a, p)]))
       = length (filter (\<lambda>x. snd x = Done) xs)"
proof (induction xs arbitrary: i)
  case Nil
  then show ?case by simp
next
  case (Cons x xs)
  then show ?case by (cases i) auto
qed

lemma filter_full:
  "length xs \<le> length (filter P xs) \<Longrightarrow> list_all P xs"
proof (induction xs)
  case Nil
  show ?case by simp
next
  case (Cons x xs)
  have le: "length (filter P xs) \<le> length xs"
    by (rule length_filter_le)
  show ?case
  proof (cases "P x")
    case True
    with Cons show ?thesis by simp
  next
    case False
    with Cons.prems le show ?thesis by simp
  qed
qed

lemma map_fst_update: "i < length xs \<Longrightarrow> map fst (xs[i := (fst (xs ! i), p)]) = map fst xs"
  by (simp add: map_update list_update_same_conv)

text \<open>The invariant holds when the exports have just been started.\<close>

lemma broadcast_inv_start:
  "computeHash ext s = Broadcasting b0 \<Longrightarrow>
     broadcast_inv (node_list s) b0 \<and>
     exports b0 = map (\<lambda>n. (n, Connecting)) (node_list s) \<and> \<not> resolved b0 \<and>
     transaction_pool (miner_state b0) = transaction_pool s"
  by (auto simp: computeHash_def broadcast_inv_def Let_def setLatestBlock_def comp_def
      split: if_splits option.splits)

lemma broadcast_inv_connected:
  assumes "broadcast_inv nodes0 b" and "i < length (exports b)"
    and "snd (exports b ! i) = Connecting"
  shows "broadcast_inv nodes0 (connected i b)"
proof -
  have "snd (exports b ! i) \<noteq> Done"
    using assms(3) by simp
  then have "length (filter (\<lambda>x. snd x = Done) ((exports b)[i := (fst (exports b ! i), Exporting)]))
      = length (filter (\<lambda>x. snd x = Done) (exports b))"
    using assms(2) by (simp add: count_done_update_other)
  moreover have "\<not> list_all (\<lambda>x. snd x = Done) (exports b)"
    using assms(2,3) by (auto simp: list_all_length)
  then have "\<not> resolved b"
    using assms(1) by (auto simp: broadcast_inv_def)
  ultimately show ?thesis
    using assms(1,2) by (simp add: broadcast_inv_def connected_def map_fst_update)
qed

lemma broadcast_inv_exported:
  assumes "broadcast_inv nodes0 b" and "i < length (exports b)"
    and "snd (exports b ! i) = Exporting"
  shows "broadcast_inv nodes0 (exported ext i b)"
proof -
  let ?xs = "(exports b)[i := (fst (exports b ! i), Done)]"
  have notdone: "\<not> list_all (\<lambda>x. snd x = Done) (exports b)"
    using assms(2,3) by (auto simp: list_all_length)
  then have unresolved: "\<not> resolved b"
    using assms(1) by (auto simp: broadcast_inv_def)
  have count: "length (filter (\<lambda>x. snd x = Done) ?xs) = Suc (length (filter (\<lambda>x. snd x = Done) (exports b)))"
    using assms(2,3) by (simp add: count_done_update)
  have fst_same: "map fst ?xs = map fst (exports b)"
    using assms(2) by (rule map_fst_update)
  show ?thesis
  proof (cases "completed_exports b + 1 = length (node_list (miner_state b))")
    case True
    have "length ?xs \<le> length (node_list (miner_state b))"
      using assms(1) by (auto simp: broadcast_inv_def dest: arg_cong [where f = length])
    also have "\<dots> = length (filter (\<lambda>x. snd x = Done) ?xs)"
      using True count assms(1) by (simp add: broadcast_inv_def)
    finally have "list_all (\<lambda>x. snd x = Done) ?xs"
      by (rule filter_full)
    then show ?thesis
      using True count fst_same assms(1)
      by (simp add: broadcast_inv_def exported_def Let_def node_list_pushNewBlock)
  next
    case False
    then show ?thesis
      using count fst_same assms(1) unresolved
      by (simp add: broadcast_inv_def exported_def Let_def)
  qed
qed

text \<open>A handler that leaves the peer list at least as long keeps the invariant.\<close>

lemma broadcast_inv_miner_state:
  assumes "broadcast_inv nodes0 b"
    and "length (node_list (miner_state b)) \<le> length (node_list s')"
  shows "broadcast_inv nodes0 (b\<lparr>miner_state := s'\<rparr>)"
  using assms by (auto simp: broadcast_inv_def)

lemma broadcast_inv_step:
  assumes "broadcast_inv nodes0 b" and "broadcast_step ext b e = Some b'"
  shows "broadcast_inv nodes0 b'"
proof (cases e)
  case (Connected i)
  then show ?thesis
    using assms by (auto split: if_splits intro: broadcast_inv_connected)
next
  case (Exported i)
  then show ?thesis
    using assms by (auto split: if_splits intro: broadcast_inv_exported)
next
  case (NodesAdded nodes)
  then show ?thesis
    using assms by (auto intro: broadcast_inv_miner_state length_node_list_addNodes)
qed

lemma broadcast_inv_node_step:
  assumes "broadcast_inv nodes0 b" and "node_step ext b e = Some b'"
  shows "broadcast_inv nodes0 b'"
proof (cases e)
  case (Broadcast e')
  then show ?thesis
    using assms by (auto intro: broadcast_inv_step)
next
  case (ChainReceived candidate)
  then show ?thesis
    using assms by (auto intro: broadcast_inv_miner_state simp: node_list_receiveNewBlockchain)
next
  case (TransactionReceived t)
  then show ?thesis
    using assms by (auto intro: broadcast_inv_miner_state simp: addTransactionToPool_def)
qed

lemma broadcast_inv_run:
  "broadcast_inv nodes0 b \<Longrightarrow> run_node_events ext b es = Some b' \<Longrightarrow> broadcast_inv nodes0 b'"
proof (induction es arbitrary: b)
  case Nil
  then show ?case by simp
next
  case (Cons e es)
  then obtain b1 where step: "node_step ext b e = Some b1"
    and rest: "run_node_events ext b1 es = Some b'"
    by (auto split: option.splits)
  from Cons.prems(1) step have "broadcast_inv nodes0 b1"
    by (rule broadcast_inv_node_step)
  then show ?case
    using rest by (rule Cons.IH)
qed

text \<open>As long as the promise is not resolved, no event but a received chain has touched
  the chain.\<close>

lemma broadcast_step_unresolved:
  "broadcast_step ext b e = Some b' \<Longrightarrow> \<not> resolved b' \<Longrightarrow>
     \<not> resolved b \<and> blockchain (miner_state b') = blockchain (miner_state b)"
  by (cases e)
    (auto simp: connected_def exported_def Let_def addNodes_keeps_chain_and_pool
      split: if_splits)

lemma node_step_unresolved:
  "node_step ext b e = Some b' \<Longrightarrow> \<not> chain_received e \<Longrightarrow> \<not> resolved b' \<Longrightarrow>
     \<not> resolved b \<and> blockchain (miner_state b') = blockchain (miner_state b)"
  by (cases e) (auto simp: addTransactionToPool_def dest: broadcast_step_unresolved)

lemma run_node_events_unresolved:
  "run_node_events ext b es = Some b' \<Longrightarrow> list_all (\<lambda>e. \<not> chain_received e) es \<Longrightarrow>
     \<not> resolved b' \<Longrightarrow> \<not> resolved b \<and> blockchain (miner_state b') = blockchain (miner_state b)"
proof (induction es arbitrary: b)
  case Nil
  then show ?case by simp
next
  case (Cons e es)
  then obtain b1 where step: "node_step ext b e = Some b1"
    and rest: "run_node_events ext b1 es = Some b'"
    by (auto split: option.splits)
  from Cons.prems(2) have e: "\<not> chain_received e" and es: "list_all (\<lambda>e. \<not> chain_received e) es"
    by simp_all
  from Cons.IH [OF rest es Cons.prems(3)]
  have b1: "\<not> resolved b1" and chain: "blockchain (miner_state b') = blockchain (miner_state b1)"
    by simp_all
  from node_step_unresolved [OF step e b1] chain show ?case
    by simp
qed

text \<open>
  C4, as amended. After a solve (computeHash has started the exports, one per peer of the
  peer list at that moment), whatever connections are established, exports complete,
  peers are added and transactions and chains are received in the meantime: the
  push-new-block step of the solve (lines 203-204: pushNewBlock, then the promise
  resolved) has run only when every export started for the solve has completed. As long
  as it has not run and no chain was received, the chain of the node is the one of the
  solve. A chain received while exports are pending is handled by receiveNewBlockchain
  as at any other time, so the chain can advance through that path before the exports
  have completed.
\<close>

theorem pushNewBlock_gated_on_exports:
  assumes "computeHash ext s = Broadcasting b0"
    and "run_node_events ext b0 es = Some b"
  shows "map fst (exports b) = node_list s \<and>
         (resolved b \<longrightarrow> (\<forall>x\<in>set (exports b). snd x = Done)) \<and>
         (\<not> resolved b \<and> list_all (\<lambda>e. \<not> chain_received e) es \<longrightarrow>
            blockchain (miner_state b) = blockchain (miner_state b0))"
proof -
  from assms(1) have "broadcast_inv (node_list s) b0"
    using broadcast_inv_start by blast
  then have "broadcast_inv (node_list s) b"
    using assms(2) by (rule broadcast_inv_run)
  then have "map fst (exports b) = node_list s \<and>
      (resolved b \<longrightarrow> (\<forall>x\<in>set (exports b). snd x = Done))"
    by (auto simp: broadcast_inv_def list_all_iff)
  moreover have "blockchain (miner_state b) = blockchain (miner_state b0)"
    if "\<not> resolved b" and "list_all (\<lambda>e. \<not> chain_received e) es"
    using run_node_events_unresolved [OF assms(2) that(2) that(1)] by simp
  ultimately show ?thesis
    by blast
qed

text \<open>One peer: the chain stands while its export runs and a transaction arrives, and the
  new block is pushed when the export has completed.\<close>

theorem pushNewBlock_gated_on_exports_witness:
  "\<exists>b0 b1 b2.
     computeHash demo_ext (demo_miner [] [demo_block [] 1] [demo_node 1338] True)
       = Broadcasting b0 \<and>
     run_node_events demo_ext b0 [Broadcast (Connected 0), TransactionReceived (Transfer ''A'')]
       = Some b1 \<and>
     \<not> resolved b1 \<and> blockchain (miner_state b1) = blockchain (miner_state b0) \<and>
     run_node_events demo_ext b0
       [Broadcast (Connected 0), TransactionReceived (Transfer ''A''), Broadcast (Exported 0)]
       = Some b2 \<and>
     resolved b2 \<and> (\<forall>x\<in>set (exports b2). snd x = Done) \<and>
     length (blockchain (miner_state b2)) = 2"
proof -
  let ?s = "demo_miner [] [demo_block [] 1] [demo_node 1338] True"
  let ?s1 = "demo_miner [] [demo_block [] 2] [demo_node 1338] True"
  let ?s2 = "demo_miner [Transfer ''A''] [demo_block [] 2] [demo_node 1338] True"
  let ?b0 = "\<lparr>miner_state = ?s1, exports = [(demo_node 1338, Connecting)],
              completed_exports = 0, resolved = False\<rparr>"
  let ?b1 = "\<lparr>miner_state = ?s2, exports = [(demo_node 1338, Exporting)],
              completed_exports = 0, resolved = False\<rparr>"
  let ?b2 = "\<lparr>miner_state = pushNewBlock demo_ext ?s2, exports = [(demo_node 1338, Done)],
              completed_exports = 1, resolved = True\<rparr>"
  let ?es1 = "[Broadcast (Connected 0), TransactionReceived (Transfer ''A'')]"
  let ?es2 = "[Broadcast (Connected 0), TransactionReceived (Transfer ''A''),
               Broadcast (Exported 0)]"
  have solve: "computeHash demo_ext ?s = Broadcasting ?b0"
    by (simp add: computeHash_def demo_miner_def Miner_def demo_block_def demo_ext_def
        latestBlock_def setLatestBlock_def startsWith_def js_increment_exact)
  have run1: "run_node_events demo_ext ?b0 ?es1 = Some ?b1"
    by (simp add: connected_def addTransactionToPool_def demo_miner_def)
  have run2: "run_node_events demo_ext ?b0 ?es2 = Some ?b2"
    by (simp add: connected_def exported_def addTransactionToPool_def demo_miner_def Miner_def
        node_list_pushNewBlock)
  have len: "length (blockchain (miner_state ?b2)) = 2"
    by (simp add: pushNewBlock_def addTransactionToPool_def demo_miner_def)
  have quiet: "list_all (\<lambda>e. \<not> chain_received e) ?es1"
    by simp
  have r1: "\<not> resolved ?b1" and r2: "resolved ?b2"
    by simp_all
  have g1: "blockchain (miner_state ?b1) = blockchain (miner_state ?b0)"
    using pushNewBlock_gated_on_exports [OF solve run1] r1 quiet by blast
  have g2: "\<forall>x\<in>set (exports ?b2). snd x = Done"
    using pushNewBlock_gated_on_exports [OF solve run2] r2 by blast
  show ?thesis
    using solve run1 run2 len g1 g2 r1 r2 by blast
qed

text \<open>C4 as stated fails when a longer valid chain arrives while the one export of the
  solve is still connecting: the chain of the node goes from one block to three (the two
  received and the one pushed on top), with the export not completed and the promise not
  resolved.\<close>

theorem chain_received_during_broadcast_counterexample:
  "computeHash demo_ext (demo_miner [] [demo_block [] 1] [demo_node 1338] True)
     = Broadcasting
         \<lparr>miner_state = demo_miner [] [demo_block [] 2] [demo_node 1338] True,
          exports = [(demo_node 1338, Connecting)], completed_exports = 0, resolved = False\<rparr> \<and>
   run_node_events demo_ext
       \<lparr>miner_state = demo_miner [] [demo_block [] 2] [demo_node 1338] True,
        exports = [(demo_node 1338, Connecting)], completed_exports = 0, resolved = False\<rparr>
       [ChainReceived [demo_block [] 0, demo_block [] 1]]
     = Some
         \<lparr>miner_state =
            pushNewBlock demo_ext
              (demo_miner [] [demo_block [] 0, demo_block [] 1] [demo_node 1338] True),
          exports = [(demo_node 1338, Connecting)], completed_exports = 0, resolved = False\<rparr> \<and>
   length (blockchain (demo_miner [] [demo_block [] 2] [demo_node 1338] True :: (demo_tx, string, demo_tx) miner)) = 1 \<and>
   length (blockchain (pushNewBlock demo_ext
      (demo_miner [] [demo_block [] 0, demo_block [] 1] [demo_node 1338] True))) = 3"
proof -
  have solve: "computeHash demo_ext (demo_miner [] [demo_block [] 1] [demo_node 1338] True)
     = Broadcasting
         \<lparr>miner_state = demo_miner [] [demo_block [] 2] [demo_node 1338] True,
          exports = [(demo_node 1338, Connecting)], completed_exports = 0, resolved = False\<rparr>"
    by (simp add: computeHash_def demo_miner_def Miner_def demo_block_def demo_ext_def
        latestBlock_def setLatestBlock_def startsWith_def js_increment_exact)
  have received: "receiveNewBlockchain demo_ext
        (demo_miner [] [demo_block [] 2] [demo_node 1338] True)
        [demo_block [] 0, demo_block [] 1]
      = Returned (pushNewBlock demo_ext
          (demo_miner [] [demo_block [] 0, demo_block [] 1] [demo_node 1338] True))"
    by (simp add: receiveNewBlockchain_def demo_miner_def Miner_def demo_block_def demo_ext_def
        latestBlock_def Let_def)
  have run: "run_node_events demo_ext
       \<lparr>miner_state = demo_miner [] [demo_block [] 2] [demo_node 1338] True,
        exports = [(demo_node 1338, Connecting)], completed_exports = 0, resolved = False\<rparr>
       [ChainReceived [demo_block [] 0, demo_block [] 1]]
     = Some
         \<lparr>miner_state =
            pushNewBlock demo_ext
              (demo_miner [] [demo_block [] 0, demo_block [] 1] [demo_node 1338] True),
          exports = [(demo_node 1338, Connecting)], completed_exports = 0, resolved = False\<rparr>"
    by (simp add: received)
  have before: "length (blockchain (demo_miner [] [demo_block [] 2] [demo_node 1338] True
      :: (demo_tx, string, demo_tx) miner)) = 1"
    by (simp add: demo_miner_def)
  have after: "length (blockchain (pushNewBlock demo_ext
      (demo_miner [] [demo_block [] 0, demo_block [] 1] [demo_node 1338] True))) = 3"
    by (simp add: pushNewBlock_def addTransactionToPool_def demo_miner_def)
  show ?thesis
    using solve run before after by blast
qed

lemma no_exports_run:
  "exports b = [] \<Longrightarrow> run_events ext b es = Some b' \<Longrightarrow>
     exports b' = [] \<and> resolved b' = resolved b \<and>
     blockchain (miner_state b') = blockchain (miner_state b) \<and>
     transaction_pool (miner_state b') = transaction_pool (miner_state b)"
proof (induction es arbitrary: b)
  case Nil
  then show ?case by simp
next
  case (Cons e es)
  then obtain b1 where step: "broadcast_step ext b e = Some b1"
    and rest: "run_events ext b1 es = Some b'"
    by (auto split: option.splits)
  from step Cons.prems(1) obtain nodes where b1: "b1 = b\<lparr>miner_state := addNodes (miner_state b) nodes\<rparr>"
    by (cases e) (auto split: if_splits)
  then have "exports b1 = []"
    using Cons.prems(1) by simp
  from Cons.IH [OF this rest] show ?case
    using b1 by (simp add: addNodes_keeps_chain_and_pool)
qed

text \<open>
  C5, on a node without peers. When the hash target is met and the peer list is empty, no
  export is started, so no export ever completes: whatever happens afterwards, lines
  203-204 never run. The promise of computeHash stays pending, no block is pushed and no
  coinbase transaction is enqueued.
\<close>

theorem computeHash_without_peers_never_pushes:
  assumes "computeHash ext s = Broadcasting b0" and "node_list s = []"
    and "run_events ext b0 es = Some b"
  shows "\<not> resolved b \<and> blockchain (miner_state b) = blockchain (miner_state b0) \<and>
         transaction_pool (miner_state b) = transaction_pool s"
proof -
  from assms(1) have "exports b0 = map (\<lambda>n. (n, Connecting)) (node_list s)" and "\<not> resolved b0"
    and "transaction_pool (miner_state b0) = transaction_pool s"
    using broadcast_inv_start by blast+
  then show ?thesis
    using assms(2) no_exports_run [OF _ assms(3)] by simp
qed

theorem computeHash_without_peers_never_pushes_witness:
  "\<exists>b0. computeHash demo_ext (demo_miner [] [demo_block [] 1] [] True) = Broadcasting b0 \<and>
     node_list (demo_miner [] [demo_block [] 1] [] True) = [] \<and>
     run_events demo_ext b0 [] = Some b0 \<and> \<not> resolved b0 \<and>
     blockchain (miner_state b0) = [demo_block [] 2] \<and>
     transaction_pool (miner_state b0) = []"
proof -
  let ?s = "demo_miner [] [demo_block [] 1] [] True"
  let ?b0 = "\<lparr>miner_state = demo_miner [] [demo_block [] 2] [] True, exports = [],
              completed_exports = 0, resolved = False\<rparr>"
  have solve: "computeHash demo_ext ?s = Broadcasting ?b0"
    by (simp add: computeHash_def demo_miner_def Miner_def demo_block_def demo_ext_def
        latestBlock_def setLatestBlock_def startsWith_def js_increment_exact)
  have peers: "node_list ?s = []"
    by (simp add: demo_miner_def)
  have run: "run_events demo_ext ?b0 [] = Some ?b0"
    by simp
  have "\<not> resolved ?b0 \<and> transaction_pool (miner_state ?b0) = transaction_pool ?s"
    using computeHash_without_peers_never_pushes [OF solve peers run] by blast
  moreover have "blockchain (miner_state ?b0) = [demo_block [] 2]"
    by (simp add: demo_miner_def)
  moreover have "transaction_pool ?s = []"
    by (simp add: demo_miner_def)
  ultimately show ?thesis
    using solve peers run by auto
qed

subsection \<open>Flushing the pool\<close>









end
